theory Spec2Isabelle
  imports Main "HOL-Library.Word"
begin

section \<open>The machine the slice macros are expanded for\<close>

text \<open>
  The header \<^verbatim>\<open>internal/simd/helpers_amd64.h\<close> defines three macros for Go's amd64
  assembler. Each one expands to \<^verbatim>\<open>MOVQ\<close> and \<^verbatim>\<open>MULQ\<close> instructions on quadwords.
  The registers are the general-purpose registers a routine may name as an operand.
  The stack pointer is not among them: \<^verbatim>\<open>FP\<close> is the assembler's pseudo-register for
  the base of the incoming arguments, and it stays where it is while a routine runs.
\<close>

datatype reg = AX | BX | CX | DX | SI | DI | BP
  | R8 | R9 | R10 | R11 | R12 | R13 | R14 | R15

type_synonym quad = "64 word"
type_synonym byte = "8 word"

text \<open>
  An operand is an immediate \<^verbatim>\<open>$c\<close>, a register, or a slot of the argument area
  written \<^verbatim>\<open>name+k(FP)\<close>. The name is a label the assembler checks; the address is
  the displacement \<open>k\<close> from \<^verbatim>\<open>FP\<close>.
\<close>

datatype operand = Imm quad | Reg reg | ArgFP string int

text \<open>
  Go's operand order: \<^verbatim>\<open>MOVQ source, destination\<close>. Besides the two instructions
  the header emits, the machine has the jumps a routine can test the two flags with:
  \<^verbatim>\<open>JMP\<close>, \<^verbatim>\<open>JCS\<close> and \<^verbatim>\<open>JCC\<close> (carry set, carry clear), \<^verbatim>\<open>JOS\<close> and \<^verbatim>\<open>JOC\<close>
  (overflow set, overflow clear). A jump names its target by position in the sequence.
\<close>

datatype instr = MOVQ operand operand | MULQ operand
  | JMP nat | JCS nat | JCC nat | JOS nat | JOC nat

text \<open>
  The carry and overflow flags are the two flags \<^verbatim>\<open>MULQ\<close> defines; the flags it
  leaves undefined are not part of the state.
\<close>

record machine =
  regs :: "reg \<Rightarrow> quad"
  fp :: quad
  mem :: "quad \<Rightarrow> byte"
  cf :: bool
  ofl :: bool

datatype event = Load64 quad | Store64 quad

datatype fault = IllegalOperands

text \<open>The eight byte addresses of the quadword at \<open>a\<close>, lowest first.\<close>

definition quad_bytes :: "quad \<Rightarrow> quad list" where
  "quad_bytes a = [a, a + 1, a + 2, a + 3, a + 4, a + 5, a + 6, a + 7]"

text \<open>Little-endian value of a byte string.\<close>

fun le_value :: "byte list \<Rightarrow> quad" where
  "le_value [] = 0"
| "le_value (b # bs) = ucast b + 256 * le_value bs"

definition load64 :: "(quad \<Rightarrow> byte) \<Rightarrow> quad \<Rightarrow> quad" where
  "load64 m a = le_value (map m (quad_bytes a))"

text \<open>The eight bytes of a quadword, lowest first.\<close>

definition le_bytes :: "quad \<Rightarrow> byte list" where
  "le_bytes v = map (\<lambda>i. ucast (drop_bit (8 * i) v)) [0, 1, 2, 3, 4, 5, 6, 7]"

definition store64 :: "(quad \<Rightarrow> byte) \<Rightarrow> quad \<Rightarrow> quad \<Rightarrow> (quad \<Rightarrow> byte)" where
  "store64 m a v = fold (\<lambda>(x, b) m'. m'(x := b)) (zip (quad_bytes a) (le_bytes v)) m"

text \<open>The address \<^verbatim>\<open>name+k(FP)\<close> denotes.\<close>

definition arg_address :: "machine \<Rightarrow> int \<Rightarrow> quad" where
  "arg_address s k = fp s + of_int k"

fun fetch :: "machine \<Rightarrow> operand \<Rightarrow> quad \<times> event list" where
  "fetch s (Imm c) = (c, [])"
| "fetch s (Reg r) = (regs s r, [])"
| "fetch s (ArgFP n k) = (load64 (mem s) (arg_address s k), [Load64 (arg_address s k)])"

text \<open>
  \<^verbatim>\<open>MULQ src\<close> multiplies \<^verbatim>\<open>AX\<close> by the operand as unsigned numbers, leaves the low
  half of the 128-bit product in \<^verbatim>\<open>AX\<close> and the high half in \<^verbatim>\<open>DX\<close>, and sets carry
  and overflow when the high half is not zero.
\<close>

definition mulq :: "quad \<Rightarrow> machine \<Rightarrow> machine" where
  "mulq v s =
     (let p = unat (regs s AX) * unat v;
          lo = (of_nat p :: quad);
          hi = (of_nat (p div 2 ^ 64) :: quad)
      in s\<lparr>regs := (regs s)(AX := lo, DX := hi), cf := (hi \<noteq> 0), ofl := (hi \<noteq> 0)\<rparr>)"

fun exec :: "instr \<Rightarrow> machine \<Rightarrow> fault + (event list \<times> machine)" where
  "exec (MOVQ src (Reg r)) s =
     (case fetch s src of (v, evs) \<Rightarrow> Inr (evs, s\<lparr>regs := (regs s)(r := v)\<rparr>))"
| "exec (MOVQ (ArgFP n k) (ArgFP n' k')) s = Inl IllegalOperands"
| "exec (MOVQ src (ArgFP n k)) s =
     (case fetch s src of (v, evs) \<Rightarrow>
        Inr (evs @ [Store64 (arg_address s k)],
             s\<lparr>mem := store64 (mem s) (arg_address s k) v\<rparr>))"
| "exec (MOVQ src (Imm c)) s = Inl IllegalOperands"
| "exec (MULQ (Imm c)) s = Inl IllegalOperands"
| "exec (MULQ src) s = (case fetch s src of (v, evs) \<Rightarrow> Inr (evs, mulq v s))"
| "exec (JMP t) s = Inr ([], s)"
| "exec (JCS t) s = Inr ([], s)"
| "exec (JCC t) s = Inr ([], s)"
| "exec (JOS t) s = Inr ([], s)"
| "exec (JOC t) s = Inr ([], s)"

text \<open>
  \<open>exec\<close> is what one instruction does to registers, flags and memory when every byte
  it touches is mapped; a jump does nothing to them. A sequence without jumps runs its
  instructions in order, and the first fault stops it. Jumps and unmapped memory come
  in with \<open>run_from\<close> below.
\<close>

fun run :: "instr list \<Rightarrow> machine \<Rightarrow> fault + (event list \<times> machine)" where
  "run [] s = Inr ([], s)"
| "run (i # is) s =
     (case exec i s of
        Inl f \<Rightarrow> Inl f
      | Inr (evs, s') \<Rightarrow>
          (case run is s' of
             Inl f \<Rightarrow> Inl f
           | Inr (evs', s'') \<Rightarrow> Inr (evs @ evs', s'')))"

section \<open>The three macros\<close>

text \<open>
  \<^verbatim>\<open>#define slice_addr(NAME, OFFSET, REGISTER) MOVQ NAME+OFFSET(FP), REGISTER\<close>
\<close>

definition slice_addr :: "string \<Rightarrow> int \<Rightarrow> reg \<Rightarrow> instr list" where
  "slice_addr NAME OFFSET REGISTER = [MOVQ (ArgFP NAME OFFSET) (Reg REGISTER)]"

text \<open>
  \<^verbatim>\<open>#define slice_len(NAME, OFFSET, REGISTER) MOVQ NAME+(8+OFFSET)(FP), REGISTER\<close>
\<close>

definition slice_len :: "string \<Rightarrow> int \<Rightarrow> reg \<Rightarrow> instr list" where
  "slice_len NAME OFFSET REGISTER = [MOVQ (ArgFP NAME (8 + OFFSET)) (Reg REGISTER)]"

text \<open>
  The element size of \<^verbatim>\<open>slice_size\<close> is, in the words of the header, "passed as a
  const or as a register".
\<close>

datatype elem_size = Const quad | InReg reg

fun size_operand :: "elem_size \<Rightarrow> operand" where
  "size_operand (Const c) = Imm c"
| "size_operand (InReg r) = Reg r"

text \<open>
  \<^verbatim>\<open>#define slice_size(NAME, OFFSET, ELEMENT_SIZE, REGISTER)\<close>
  \<^verbatim>\<open>    slice_len(NAME, OFFSET, AX)\<close>
  \<^verbatim>\<open>    MOVQ ELEMENT_SIZE, REGISTER\<close>
  \<^verbatim>\<open>    MULQ               REGISTER\<close>
  \<^verbatim>\<open>    MOVQ AX,           REGISTER\<close>
\<close>

definition slice_size :: "string \<Rightarrow> int \<Rightarrow> elem_size \<Rightarrow> reg \<Rightarrow> instr list" where
  "slice_size NAME OFFSET ELEMENT_SIZE REGISTER =
     slice_len NAME OFFSET AX @
     [MOVQ (size_operand ELEMENT_SIZE) (Reg REGISTER),
      MULQ (Reg REGISTER),
      MOVQ (Reg AX) (Reg REGISTER)]"

section \<open>Invocations, outcomes and footprints\<close>

text \<open>An invocation of one of the three macros, and the instructions it stands for.\<close>

datatype invocation =
    Slice_addr string int reg
  | Slice_len string int reg
  | Slice_size string int elem_size reg

fun expand :: "invocation \<Rightarrow> instr list" where
  "expand (Slice_addr n k r) = slice_addr n k r"
| "expand (Slice_len n k r) = slice_len n k r"
| "expand (Slice_size n k e r) = slice_size n k e r"

text \<open>The \<^verbatim>\<open>OFFSET\<close> argument: where the slice triple starts.\<close>

fun offset_of :: "invocation \<Rightarrow> int" where
  "offset_of (Slice_addr n k r) = k"
| "offset_of (Slice_len n k r) = k"
| "offset_of (Slice_size n k e r) = k"

definition final_state :: "instr list \<Rightarrow> machine \<Rightarrow> machine option" where
  "final_state p s = (case run p s of Inl f \<Rightarrow> None | Inr (evs, s') \<Rightarrow> Some s')"

definition result_reg :: "instr list \<Rightarrow> machine \<Rightarrow> reg \<Rightarrow> quad option" where
  "result_reg p s r = (case run p s of Inl f \<Rightarrow> None | Inr (evs, s') \<Rightarrow> Some (regs s' r))"

definition events_of :: "instr list \<Rightarrow> machine \<Rightarrow> event list option" where
  "events_of p s = (case run p s of Inl f \<Rightarrow> None | Inr (evs, s') \<Rightarrow> Some evs)"

fun bytes_read :: "event \<Rightarrow> quad list" where
  "bytes_read (Load64 a) = quad_bytes a"
| "bytes_read (Store64 a) = []"

fun bytes_written :: "event \<Rightarrow> quad list" where
  "bytes_written (Load64 a) = []"
| "bytes_written (Store64 a) = quad_bytes a"

definition reads :: "event list \<Rightarrow> quad set" where
  "reads evs = set (concat (map bytes_read evs))"

definition writes :: "event list \<Rightarrow> quad set" where
  "writes evs = set (concat (map bytes_written evs))"

text \<open>
  The three quadwords of the slice triple that starts \<open>k\<close> bytes into the argument
  area, as the header's comments lay them out: address, length, and the capacity after
  them.
\<close>

definition addr_field :: "machine \<Rightarrow> int \<Rightarrow> quad" where
  "addr_field s k = load64 (mem s) (arg_address s k)"

definition len_field :: "machine \<Rightarrow> int \<Rightarrow> quad" where
  "len_field s k = load64 (mem s) (arg_address s k + 8)"

definition cap_bytes :: "machine \<Rightarrow> int \<Rightarrow> quad set" where
  "cap_bytes s k = set (quad_bytes (arg_address s k + 16))"

text \<open>The element size the caller hands over: the constant, or what the register holds
  when the macro starts.\<close>

fun entry_size :: "machine \<Rightarrow> elem_size \<Rightarrow> quad" where
  "entry_size s (Const c) = c"
| "entry_size s (InReg q) = regs s q"

text \<open>
  The value the second instruction of \<^verbatim>\<open>slice_size\<close> moves: by then \<^verbatim>\<open>AX\<close> holds the
  length \<open>l\<close>.
\<close>

fun size_value :: "machine \<Rightarrow> quad \<Rightarrow> elem_size \<Rightarrow> quad" where
  "size_value s l (Const c) = c"
| "size_value s l (InReg q) = (if q = AX then l else regs s q)"

text \<open>The machine after \<^verbatim>\<open>slice_size\<close> has multiplied \<open>a\<close> by \<open>v\<close> for register \<open>r\<close>.\<close>

definition size_result :: "machine \<Rightarrow> quad \<Rightarrow> quad \<Rightarrow> reg \<Rightarrow> machine" where
  "size_result s a v r =
     (let p = unat a * unat v;
          lo = (of_nat p :: quad);
          hi = (of_nat (p div 2 ^ 64) :: quad)
      in s\<lparr>regs := (regs s)(AX := lo, DX := hi, r := lo), cf := (hi \<noteq> 0), ofl := (hi \<noteq> 0)\<rparr>)"

text \<open>Moving every argument-area displacement of an instruction by \<open>d\<close> bytes.\<close>

fun shift_operand :: "int \<Rightarrow> operand \<Rightarrow> operand" where
  "shift_operand d (ArgFP n k) = ArgFP n (k + d)"
| "shift_operand d (Imm c) = Imm c"
| "shift_operand d (Reg r) = Reg r"

fun shift_instr :: "int \<Rightarrow> instr \<Rightarrow> instr" where
  "shift_instr d (MOVQ a b) = MOVQ (shift_operand d a) (shift_operand d b)"
| "shift_instr d (MULQ a) = MULQ (shift_operand d a)"
| "shift_instr d (JMP t) = JMP t"
| "shift_instr d (JCS t) = JCS t"
| "shift_instr d (JCC t) = JCC t"
| "shift_instr d (JOS t) = JOS t"
| "shift_instr d (JOC t) = JOC t"



subsection \<open>Jumps and unmapped memory\<close>

fun is_branch :: "instr \<Rightarrow> bool" where
  "is_branch (MOVQ a b) = False"
| "is_branch (MULQ a) = False"
| "is_branch (JMP t) = True"
| "is_branch (JCS t) = True"
| "is_branch (JCC t) = True"
| "is_branch (JOS t) = True"
| "is_branch (JOC t) = True"

text \<open>The position of the instruction that runs after the one at \<open>pc\<close>.\<close>

fun next_pc :: "instr \<Rightarrow> machine \<Rightarrow> nat \<Rightarrow> nat" where
  "next_pc (JMP t) s pc = t"
| "next_pc (JCS t) s pc = (if cf s then t else Suc pc)"
| "next_pc (JCC t) s pc = (if cf s then Suc pc else t)"
| "next_pc (JOS t) s pc = (if ofl s then t else Suc pc)"
| "next_pc (JOC t) s pc = (if ofl s then Suc pc else t)"
| "next_pc (MOVQ a b) s pc = Suc pc"
| "next_pc (MULQ a) s pc = Suc pc"

text \<open>
  A process has only part of the address space mapped. An instruction that touches a
  byte outside the mapped part \<open>M\<close> does not complete: the processor traps with the
  address, and the Go runtime ends the program with a report of the fault.
\<close>

datatype outcome = Done "event list" machine | Illegal | Trap quad

definition touched :: "event list \<Rightarrow> quad list" where
  "touched evs = concat (map (\<lambda>e. bytes_read e @ bytes_written e) evs)"

definition exec_in :: "(quad \<Rightarrow> bool) \<Rightarrow> instr \<Rightarrow> machine \<Rightarrow> outcome" where
  "exec_in M i s =
     (case exec i s of
        Inl f \<Rightarrow> Illegal
      | Inr (evs, s') \<Rightarrow>
          (case find (\<lambda>a. \<not> M a) (touched evs) of
             Some a \<Rightarrow> Trap a
           | None \<Rightarrow> Done evs s'))"

text \<open>
  Running the sequence \<open>p\<close> from position \<open>pc\<close> with jumps and traps, for at most the
  given number of instructions; \<open>None\<close> when that number does not suffice. The run is
  over when \<open>pc\<close> leaves the sequence.
\<close>

primrec run_from :: "(quad \<Rightarrow> bool) \<Rightarrow> nat \<Rightarrow> instr list \<Rightarrow> nat \<Rightarrow> machine \<Rightarrow> outcome option"
where
  "run_from M 0 p pc s = (if length p \<le> pc then Some (Done [] s) else None)"
| "run_from M (Suc f) p pc s =
     (if length p \<le> pc then Some (Done [] s)
      else (case exec_in M (p ! pc) s of
              Illegal \<Rightarrow> Some Illegal
            | Trap a \<Rightarrow> Some (Trap a)
            | Done evs s' \<Rightarrow>
                (case run_from M f p (next_pc (p ! pc) s pc) s' of
                   Some (Done evs' s'') \<Rightarrow> Some (Done (evs @ evs') s'')
                 | other \<Rightarrow> other)))"

text \<open>The straight-line run as an outcome.\<close>

fun as_outcome :: "fault + (event list \<times> machine) \<Rightarrow> outcome" where
  "as_outcome (Inl f) = Illegal"
| "as_outcome (Inr (evs, s')) = Done evs s'"

text \<open>The quadword an invocation loads, and the register it is for.\<close>

fun load_site :: "machine \<Rightarrow> invocation \<Rightarrow> quad" where
  "load_site s (Slice_addr n k r) = arg_address s k"
| "load_site s (Slice_len n k r) = arg_address s k + 8"
| "load_site s (Slice_size n k e r) = arg_address s k + 8"

fun target_of :: "invocation \<Rightarrow> reg" where
  "target_of (Slice_addr n k r) = r"
| "target_of (Slice_len n k r) = r"
| "target_of (Slice_size n k e r) = r"

definition all_mapped :: "(quad \<Rightarrow> bool) \<Rightarrow> quad \<Rightarrow> bool" where
  "all_mapped M a = list_all M (quad_bytes a)"

text \<open>The page that holds the example frame: addresses \<open>0x1000\<close> to \<open>0x1fff\<close>.\<close>

definition frame_page :: "quad \<Rightarrow> bool" where
  "frame_page a = (0x1000 \<le> a \<and> a < 0x2000)"

text \<open>
  A routine's frame as the header's examples have it: the slice triple starts 8 bytes
  into the argument area, which is at address \<open>0x1000\<close>; \<open>a\<close> is its address field,
  \<open>l\<close> its length and \<open>c\<close> its capacity. \<^verbatim>\<open>AX\<close>, \<^verbatim>\<open>CX\<close> and \<^verbatim>\<open>DX\<close> hold \<open>x\<close>, \<open>y\<close>
  and \<open>z\<close>.
\<close>

definition frame_with :: "quad \<Rightarrow> quad \<Rightarrow> quad \<Rightarrow> quad \<Rightarrow> quad \<Rightarrow> quad \<Rightarrow> machine" where
  "frame_with a l c x y z =
     \<lparr>regs = (\<lambda>_. 0)(AX := x, CX := y, DX := z),
      fp = 0x1000,
      mem = store64 (store64 (store64 (\<lambda>_. 0) 0x1008 a) 0x1010 l) 0x1018 c,
      cf = False, ofl = False\<rparr>"

section \<open>What one expansion does\<close>

lemma run_slice_addr:
  "run (slice_addr n k r) s =
     Inr ([Load64 (arg_address s k)],
          s\<lparr>regs := (regs s)(r := load64 (mem s) (arg_address s k))\<rparr>)"
  by (simp add: slice_addr_def)

lemma run_slice_len:
  "run (slice_len n k r) s =
     Inr ([Load64 (arg_address s (8 + k))],
          s\<lparr>regs := (regs s)(r := load64 (mem s) (arg_address s (8 + k)))\<rparr>)"
  by (simp add: slice_len_def)

lemma regs_overwritten:
  "(f(AX := l, r := v))(AX := lo, DX := hi, r := lo) = f(AX := lo, DX := hi, r := (lo :: quad))"
  by (rule ext) simp

lemma run_slice_size:
  "run (slice_size n k e r) s =
     Inr ([Load64 (arg_address s (8 + k))],
          size_result s
            (if r = AX then size_value s (load64 (mem s) (arg_address s (8 + k))) e
             else load64 (mem s) (arg_address s (8 + k)))
            (size_value s (load64 (mem s) (arg_address s (8 + k))) e) r)"
  by (cases e)
    (simp_all add: slice_size_def slice_len_def mulq_def Let_def size_result_def regs_overwritten)

lemma arg_address_8: "arg_address s (8 + k) = arg_address s k + 8"
  by (simp add: arg_address_def)

lemma len_field_eq: "load64 (mem s) (arg_address s (8 + k)) = len_field s k"
  by (simp add: len_field_def arg_address_8)

lemma size_value_entry: "e \<noteq> InReg AX \<Longrightarrow> size_value s l e = entry_size s e"
  by (cases e) auto

lemma result_reg_slice_size:
  "result_reg (slice_size n k e r) s q =
     Some (regs (size_result s
            (if r = AX then size_value s (len_field s k) e else len_field s k)
            (size_value s (len_field s k) e) r) q)"
  by (simp add: result_reg_def run_slice_size len_field_eq)

lemma final_state_slice_size:
  "final_state (slice_size n k e r) s =
     Some (size_result s
            (if r = AX then size_value s (len_field s k) e else len_field s k)
            (size_value s (len_field s k) e) r)"
  by (simp add: final_state_def run_slice_size len_field_eq)

subsection \<open>The two halves of the 128-bit product\<close>

lemma unat_product_low: "unat (a * v :: quad) = (unat a * unat v) mod 2 ^ 64"
  by (simp add: unat_word_ariths)

lemma product_bound: "unat (a :: quad) * unat (v :: quad) < 2 ^ 128"
proof -
  have "unat a < 2 ^ 64" and "unat v < 2 ^ 64"
    using unsigned_less [of a] unsigned_less [of v] by simp_all
  then have "unat a * unat v < 2 ^ 64 * 2 ^ 64"
    by (intro mult_strict_mono) simp_all
  then show ?thesis by simp
qed

lemma unat_product_high:
  "unat (of_nat (unat a * unat v div 2 ^ 64) :: quad)
     = unat (a :: quad) * unat (v :: quad) div 2 ^ 64"
proof -
  have "unat a * unat v div 2 ^ 64 < 2 ^ 64"
    using product_bound [of a v] by (simp add: less_mult_imp_div_less)
  then show ?thesis
    by (simp add: unat_of_nat)
qed

lemma regs_size_result_target: "regs (size_result s a v r) r = a * v"
  by (simp add: size_result_def Let_def)

lemma regs_size_result_AX: "regs (size_result s a v r) AX = a * v"
  by (simp add: size_result_def Let_def)

lemma regs_size_result_DX:
  "regs (size_result s a v r) DX =
     (if r = DX then a * v else of_nat (unat a * unat v div 2 ^ 64))"
  by (simp add: size_result_def Let_def)


subsection \<open>Footprints and sequences of invocations\<close>

lemma quad_apart_16: "set (quad_bytes x) \<inter> set (quad_bytes (x + 16)) = {}"
  by (simp add: quad_bytes_def)

lemma quad_apart_8: "set (quad_bytes (x + 8)) \<inter> set (quad_bytes (x + 16)) = {}"
  by (simp add: quad_bytes_def)

lemma run_append:
  "run (p @ q) s =
     (case run p s of
        Inl f \<Rightarrow> Inl f
      | Inr (evs, s') \<Rightarrow>
          (case run q s' of
             Inl f \<Rightarrow> Inl f
           | Inr (evs', s'') \<Rightarrow> Inr (evs @ evs', s'')))"
  by (induction p arbitrary: s) (auto split: sum.splits prod.splits)

lemma size_result_frame: "mem (size_result s a v r) = mem s \<and> fp (size_result s a v r) = fp s"
  by (simp add: size_result_def Let_def)

lemma run_expand:
  "\<exists>evs s'. run (expand c) s = Inr (evs, s') \<and> mem s' = mem s \<and> fp s' = fp s"
  by (cases c) (simp_all add: run_slice_addr run_slice_len run_slice_size size_result_frame)

lemma run_invocations:
  "\<exists>evs s'. run (concat (map expand cs)) s = Inr (evs, s') \<and> mem s' = mem s \<and> fp s' = fp s"
proof (induction cs arbitrary: s)
  case Nil
  show ?case by simp
next
  case (Cons c cs)
  obtain e1 s1 where one: "run (expand c) s = Inr (e1, s1)" "mem s1 = mem s" "fp s1 = fp s"
    using run_expand [of c s] by blast
  obtain e2 s2 where rest: "run (concat (map expand cs)) s1 = Inr (e2, s2)"
      "mem s2 = mem s1" "fp s2 = fp s1"
    using Cons.IH [of s1] by blast
  show ?case
    by (simp add: run_append one rest)
qed

lemma result_reg_slice_addr: "result_reg (slice_addr n k r) s r = Some (addr_field s k)"
  by (simp add: result_reg_def run_slice_addr addr_field_def)

lemma events_of_slice_addr: "events_of (slice_addr n k r) s = Some [Load64 (arg_address s k)]"
  by (simp add: events_of_def run_slice_addr)

lemma same_frame_same_field:
  "mem s' = mem s \<Longrightarrow> fp s' = fp s \<Longrightarrow> addr_field s' k = addr_field s k"
  by (simp add: addr_field_def arg_address_def)






subsection \<open>Runs with jumps and traps\<close>

text \<open>
  With every address mapped, a sequence without jumps does under \<open>run_from\<close> what the
  straight-line \<open>run\<close> says.
\<close>

lemma run_from_end: "length p \<le> pc \<Longrightarrow> run_from M f p pc s = Some (Done [] s)"
  by (cases f) simp_all

lemma exec_in_everywhere: "exec_in (\<lambda>a. True) i s = as_outcome (exec i s)"
  by (cases "exec i s") (auto simp add: exec_in_def find_None_iff split: option.splits)

lemma next_pc_plain: "\<not> is_branch i \<Longrightarrow> next_pc i s pc = Suc pc"
  by (cases i) simp_all

lemma run_from_straight:
  "list_all (\<lambda>i. \<not> is_branch i) p \<Longrightarrow> pc \<le> length p \<Longrightarrow> length p - pc \<le> f \<Longrightarrow>
     run_from (\<lambda>a. True) f p pc s = Some (as_outcome (run (drop pc p) s))"
proof (induction f arbitrary: pc s)
  case 0
  then show ?case by simp
next
  case (Suc f)
  show ?case
  proof (cases "length p \<le> pc")
    case True
    with Suc.prems show ?thesis by simp
  next
    case False
    then have lt: "pc < length p" by simp
    have plain: "\<not> is_branch (p ! pc)"
      using Suc.prems(1) lt by (simp add: list_all_length)
    have split: "drop pc p = p ! pc # drop (Suc pc) p"
      using lt by (simp add: Cons_nth_drop_Suc)
    have rest: "run_from (\<lambda>a. True) f p (Suc pc) s' = Some (as_outcome (run (drop (Suc pc) p) s'))"
      for s'
      using Suc.prems lt by (intro Suc.IH) simp_all
    show ?thesis
    proof (cases "exec (p ! pc) s")
      case (Inl e)
      then show ?thesis
        using False by (simp add: split exec_in_everywhere)
    next
      case (Inr b)
      obtain evs s' where b: "b = (evs, s')" by (cases b)
      show ?thesis
        using False Inr b
        by (cases "run (drop (Suc pc) p) s'")
          (auto simp add: split exec_in_everywhere next_pc_plain [OF plain] rest)
    qed
  qed
qed

lemma find_unmapped_None: "all_mapped M a \<Longrightarrow> find (\<lambda>x. \<not> M x) (quad_bytes a) = None"
  by (simp add: all_mapped_def find_None_iff list_all_iff)

lemma find_unmapped_Some:
  assumes "\<not> all_mapped M a"
  shows "\<exists>x. find (\<lambda>x. \<not> M x) (quad_bytes a) = Some x \<and> x \<in> set (quad_bytes a) \<and> \<not> M x"
proof -
  from assms have "find (\<lambda>x. \<not> M x) (quad_bytes a) \<noteq> None"
    by (auto simp add: all_mapped_def find_None_iff list_all_iff)
  then obtain x where x: "find (\<lambda>x. \<not> M x) (quad_bytes a) = Some x" by blast
  then have "x \<in> set (quad_bytes a) \<and> \<not> M x"
    by (auto simp add: find_Some_iff)
  with x show ?thesis by blast
qed

lemma exec_in_arg_load:
  "exec_in M (MOVQ (ArgFP n k) (Reg r)) s =
     (case find (\<lambda>a. \<not> M a) (quad_bytes (arg_address s k)) of
        Some a \<Rightarrow> Trap a
      | None \<Rightarrow> Done [Load64 (arg_address s k)]
                  (s\<lparr>regs := (regs s)(r := load64 (mem s) (arg_address s k))\<rparr>))"
  by (simp add: exec_in_def touched_def)

lemma exec_in_reg_move:
  "exec_in M (MOVQ (Reg q) (Reg r)) s = as_outcome (exec (MOVQ (Reg q) (Reg r)) s)"
  by (simp add: exec_in_def touched_def)

lemma exec_in_reg_mul:
  "exec_in M (MULQ (Reg r)) s = as_outcome (exec (MULQ (Reg r)) s)"
  by (simp add: exec_in_def touched_def)

lemma run_from_load_mapped:
  "all_mapped M (arg_address s k) \<Longrightarrow>
     run_from M (Suc j) [MOVQ (ArgFP n k) (Reg r)] 0 s
       = Some (as_outcome (run [MOVQ (ArgFP n k) (Reg r)] s))"
  by (simp add: exec_in_arg_load find_unmapped_None run_from_end)

lemma run_from_slice_size_mapped:
  assumes "all_mapped M (arg_address s (8 + k))"
  shows "run_from M (4 + j) (slice_size n k e r) 0 s = Some (as_outcome (run (slice_size n k e r) s))"
proof -
  have four: "4 + j = Suc (Suc (Suc (Suc j)))" by simp
  show ?thesis
    unfolding four
    by (cases e)
      (simp_all add: slice_size_def slice_len_def exec_in_arg_load find_unmapped_None [OF assms]
        exec_in_reg_move exec_in_reg_mul exec_in_def touched_def run_from_end)
qed

lemma run_from_load_unmapped:
  "find (\<lambda>x. \<not> M x) (quad_bytes (arg_address s k)) = Some a \<Longrightarrow>
     run_from M (Suc j) (MOVQ (ArgFP n k) (Reg r) # rest) 0 s = Some (Trap a)"
  by (simp add: exec_in_arg_load)

lemma branch_free: "list_all (\<lambda>i. \<not> is_branch i) (expand c)"
  by (cases c; cases "case c of Slice_size n k e r \<Rightarrow> e | _ \<Rightarrow> Const 0")
    (simp_all add: slice_addr_def slice_len_def slice_size_def)

lemma expand_length: "length (expand c) = (case c of Slice_size n k e r \<Rightarrow> 4 | _ \<Rightarrow> 1)"
  by (cases c) (simp_all add: slice_addr_def slice_len_def slice_size_def)

lemma run_from_expand_mapped:
  assumes "all_mapped M (load_site s c)"
  shows "run_from M (length (expand c) + j) (expand c) 0 s = Some (as_outcome (run (expand c) s))"
proof (cases c)
  case (Slice_addr n k r)
  with assms show ?thesis
    using run_from_load_mapped [of M s k j n r] by (simp add: slice_addr_def)
next
  case (Slice_len n k r)
  with assms show ?thesis
    using run_from_load_mapped [of M s "8 + k" j n r] by (simp add: slice_len_def arg_address_8)
next
  case (Slice_size n k e r)
  with assms have "all_mapped M (arg_address s (8 + k))"
    by (simp add: arg_address_8)
  then have "run_from M (4 + j) (slice_size n k e r) 0 s
               = Some (as_outcome (run (slice_size n k e r) s))"
    by (rule run_from_slice_size_mapped)
  moreover have "length (slice_size n k e r) = 4"
    by (simp add: slice_size_def slice_len_def)
  ultimately show ?thesis
    using Slice_size by simp
qed

lemma run_from_expand_unmapped:
  assumes "\<not> all_mapped M (load_site s c)"
  shows "\<exists>a. a \<in> set (quad_bytes (load_site s c)) \<and> \<not> M a
           \<and> run_from M (length (expand c) + j) (expand c) 0 s = Some (Trap a)"
proof -
  obtain a where a: "find (\<lambda>x. \<not> M x) (quad_bytes (load_site s c)) = Some a"
      "a \<in> set (quad_bytes (load_site s c))" "\<not> M a"
    using find_unmapped_Some [OF assms] by blast
  have "run_from M (length (expand c) + j) (expand c) 0 s = Some (Trap a)"
  proof (cases c)
    case (Slice_addr n k r)
    with a(1) show ?thesis
      using run_from_load_unmapped [of M s k a j n r "[]"] by (simp add: slice_addr_def)
  next
    case (Slice_len n k r)
    with a(1) show ?thesis
      using run_from_load_unmapped [of M s "8 + k" a j n r "[]"]
      by (simp add: slice_len_def arg_address_8)
  next
    case (Slice_size n k e r)
    with a(1) show ?thesis
      using run_from_load_unmapped [of M s "8 + k" a "Suc (Suc (Suc j))" n AX
          "[MOVQ (size_operand e) (Reg r), MULQ (Reg r), MOVQ (Reg AX) (Reg r)]"]
      by (simp add: slice_size_def slice_len_def arg_address_8)
  qed
  with a show ?thesis by blast
qed

lemma run_expand_loads:
  "\<exists>s'. run (expand c) s = Inr ([Load64 (load_site s c)], s')
        \<and> (case c of Slice_size n k e r \<Rightarrow> True
            | _ \<Rightarrow> regs s' (target_of c) = load64 (mem s) (load_site s c))"
  by (cases c) (simp_all add: run_slice_addr run_slice_len run_slice_size arg_address_8)

subsection \<open>Evaluating the example frames\<close>

lemmas frame_eval =
  frame_with_def load64_def store64_def quad_bytes_def le_bytes_def arg_address_def

section \<open>The byte size the third macro computes\<close>

text \<open>
  The header says of \<^verbatim>\<open>slice_size\<close> that it will "multiply that by the element size
  (passed as a const or as a register), and move the resulting quadward int into the
  target register". Where neither the target nor the element size is \<^verbatim>\<open>AX\<close> the code
  does so: the target ends with \<open>(L * E) mod 2^64\<close>, the multiplication wraps around
  and nothing checks for overflow.
\<close>

lemma slice_size_byte_size:
  assumes "r \<noteq> AX" and "e \<noteq> InReg AX"
  shows "result_reg (slice_size n k e r) s r = Some (len_field s k * entry_size s e)
       \<and> unat (len_field s k * entry_size s e)
           = (unat (len_field s k) * unat (entry_size s e)) mod 2 ^ 64"
  using assms
  by (simp add: result_reg_slice_size regs_size_result_target size_value_entry unat_product_low)

text \<open>
  With target \<^verbatim>\<open>BX\<close>: \<open>L = 0, E = 8\<close> gives 0; \<open>L = 5, E = 4\<close> gives 20;
  \<open>L = E = 2^32 = 0x100000000\<close> gives 0; \<open>L = 1, E = 1\<close> (the size held in \<^verbatim>\<open>CX\<close>)
  gives 1.
\<close>

lemma slice_size_byte_size_cases:
  "BX \<noteq> AX \<and> Const 8 \<noteq> InReg AX
   \<and> len_field (frame_with 0xC000100000 0 16 7 3 9) 8 = 0
   \<and> result_reg (slice_size ''size'' 8 (Const 8) BX) (frame_with 0xC000100000 0 16 7 3 9) BX
       = Some 0
   \<and> len_field (frame_with 0xC000100000 5 16 7 3 9) 8 = 5
   \<and> result_reg (slice_size ''size'' 8 (Const 4) BX) (frame_with 0xC000100000 5 16 7 3 9) BX
       = Some 20
   \<and> len_field (frame_with 0xC000100000 0x100000000 0x100000000 7 3 9) 8 = 0x100000000
   \<and> result_reg (slice_size ''size'' 8 (Const 0x100000000) BX)
        (frame_with 0xC000100000 0x100000000 0x100000000 7 3 9) BX = Some 0
   \<and> len_field (frame_with 0xC000100000 1 1 7 1 9) 8 = 1
   \<and> entry_size (frame_with 0xC000100000 1 1 7 1 9) (InReg CX) = 1
   \<and> result_reg (slice_size ''size'' 8 (InReg CX) BX) (frame_with 0xC000100000 1 1 7 1 9) BX
       = Some 1"
proof -
  have l0: "len_field (frame_with 0xC000100000 0 16 7 3 9) 8 = 0"
    and l5: "len_field (frame_with 0xC000100000 5 16 7 3 9) 8 = 5"
    and l32: "len_field (frame_with 0xC000100000 0x100000000 0x100000000 7 3 9) 8 = 0x100000000"
    and l1: "len_field (frame_with 0xC000100000 1 1 7 1 9) 8 = 1"
    by (simp_all add: len_field_def frame_eval)
  have e1: "regs (frame_with 0xC000100000 1 1 7 1 9) CX = 1"
    by (simp add: frame_with_def)
  show ?thesis
    using slice_size_byte_size [of BX "Const 8" "''size''" 8 "frame_with 0xC000100000 0 16 7 3 9"]
      slice_size_byte_size [of BX "Const 4" "''size''" 8 "frame_with 0xC000100000 5 16 7 3 9"]
      slice_size_byte_size [of BX "Const 0x100000000" "''size''" 8
        "frame_with 0xC000100000 0x100000000 0x100000000 7 3 9"]
      slice_size_byte_size [of BX "InReg CX" "''size''" 8 "frame_with 0xC000100000 1 1 7 1 9"]
    by (simp add: l0 l5 l32 l1 e1)
qed

text \<open>
  Claim C1. For every length \<open>L\<close> in the length slot and every element size \<open>E\<close>, the
  expansion of \<^verbatim>\<open>slice_size\<close> leaves \<open>(L * E) mod 2^64\<close> in the destination
  register. The code breaks this, and the header's own description, when the destination
  is \<^verbatim>\<open>AX\<close>: the length is loaded into \<^verbatim>\<open>AX\<close>, the element size is moved over it, and
  the multiplication squares the size. At \<^verbatim>\<open>slice_size(size, 8, $4, AX)\<close> with length 5
  the register ends with 16, not 20.
\<close>

theorem target_AX_loses_length:
  "len_field (frame_with 0xC000100000 5 16 7 3 9) 8 = 5
   \<and> entry_size (frame_with 0xC000100000 5 16 7 3 9) (Const 4) = 4
   \<and> result_reg (slice_size ''size'' 8 (Const 4) AX) (frame_with 0xC000100000 5 16 7 3 9) AX
       = Some 16
   \<and> result_reg (slice_size ''size'' 8 (Const 4) AX) (frame_with 0xC000100000 5 16 7 3 9) AX
       \<noteq> Some (5 * 4)"
proof -
  have l5: "len_field (frame_with 0xC000100000 5 16 7 3 9) 8 = 5"
    by (simp add: len_field_def frame_eval)
  show ?thesis
    by (simp add: l5 result_reg_slice_size regs_size_result_target)
qed

text \<open>
  With target \<^verbatim>\<open>AX\<close> and an element size \<open>E\<close> passed as a constant or in a register
  other than \<^verbatim>\<open>AX\<close>, the code always leaves \<open>(E * E) mod 2^64\<close>; that is
  \<open>(L * E) mod 2^64\<close> only when the two products happen to agree.
\<close>

lemma slice_size_target_AX:
  assumes "e \<noteq> InReg AX"
  shows "result_reg (slice_size n k e AX) s AX = Some (entry_size s e * entry_size s e)
       \<and> unat (entry_size s e * entry_size s e)
           = (unat (entry_size s e) * unat (entry_size s e)) mod 2 ^ 64
       \<and> (result_reg (slice_size n k e AX) s AX = Some (len_field s k * entry_size s e))
           = (entry_size s e * entry_size s e = len_field s k * entry_size s e)"
  using assms
  by (simp add: result_reg_slice_size regs_size_result_target size_value_entry unat_product_low)

text \<open>
  Claim C2. The byte-size guarantee holds only for destinations other than \<^verbatim>\<open>AX\<close>, and
  with destination \<^verbatim>\<open>AX\<close> the expansion leaves \<open>(E * E) mod 2^64\<close> in place of
  \<open>(L * E) mod 2^64\<close>. The code departs from this, and from the header's description,
  when the element size is passed in \<^verbatim>\<open>AX\<close> as well: the length replaces it before it
  is read. At \<^verbatim>\<open>slice_size(size, 8, AX, AX)\<close> with length 5 and 4 in \<^verbatim>\<open>AX\<close> the register
  ends with \<open>L * L = 25\<close>, neither 16 nor 20.
\<close>

theorem target_AX_with_size_in_AX:
  "len_field (frame_with 0xC000100000 5 16 4 3 9) 8 = 5
   \<and> entry_size (frame_with 0xC000100000 5 16 4 3 9) (InReg AX) = 4
   \<and> result_reg (slice_size ''size'' 8 (InReg AX) AX) (frame_with 0xC000100000 5 16 4 3 9) AX
       = Some 25
   \<and> result_reg (slice_size ''size'' 8 (InReg AX) AX) (frame_with 0xC000100000 5 16 4 3 9) AX
       \<noteq> Some (4 * 4)
   \<and> result_reg (slice_size ''size'' 8 (InReg AX) AX) (frame_with 0xC000100000 5 16 4 3 9) AX
       \<noteq> Some (5 * 4)"
proof -
  have l5: "len_field (frame_with 0xC000100000 5 16 4 3 9) 8 = 5"
    by (simp add: len_field_def frame_eval)
  have a4: "regs (frame_with 0xC000100000 5 16 4 3 9) AX = 4"
    by (simp add: frame_with_def)
  show ?thesis
    by (simp add: l5 a4 result_reg_slice_size regs_size_result_target)
qed

text \<open>
  Where the target is neither \<^verbatim>\<open>AX\<close> nor \<^verbatim>\<open>DX\<close> and the element size is not passed in
  \<^verbatim>\<open>AX\<close>, \<^verbatim>\<open>AX\<close> ends with the same low 64 bits of \<open>L * E\<close> as the target and \<^verbatim>\<open>DX\<close>
  with the high 64 bits.
\<close>

lemma slice_size_full_product:
  assumes "r \<noteq> AX" and "r \<noteq> DX" and "e \<noteq> InReg AX"
  shows "\<exists>s'. final_state (slice_size n k e r) s = Some s'
           \<and> regs s' AX = regs s' r
           \<and> unat (regs s' r) = (unat (len_field s k) * unat (entry_size s e)) mod 2 ^ 64
           \<and> unat (regs s' DX) = (unat (len_field s k) * unat (entry_size s e)) div 2 ^ 64
           \<and> unat (regs s' DX) * 2 ^ 64 + unat (regs s' r)
               = unat (len_field s k) * unat (entry_size s e)"
proof -
  let ?L = "len_field s k" and ?E = "entry_size s e"
  let ?s' = "size_result s ?L ?E r"
  have fin: "final_state (slice_size n k e r) s = Some ?s'"
    using assms by (simp add: final_state_slice_size size_value_entry)
  have tr: "regs ?s' r = ?L * ?E"
    by (rule regs_size_result_target)
  have ax: "regs ?s' AX = regs ?s' r"
    by (simp only: regs_size_result_AX tr)
  have dx: "regs ?s' DX = of_nat (unat ?L * unat ?E div 2 ^ 64)"
    using assms by (simp only: regs_size_result_DX if_False)
  have lo: "unat (regs ?s' r) = (unat ?L * unat ?E) mod 2 ^ 64"
    unfolding tr by (rule unat_product_low)
  have hi: "unat (regs ?s' DX) = (unat ?L * unat ?E) div 2 ^ 64"
    unfolding dx by (rule unat_product_high)
  have whole: "unat (regs ?s' DX) * 2 ^ 64 + unat (regs ?s' r) = unat ?L * unat ?E"
    unfolding lo hi by (rule div_mult_mod_eq)
  show ?thesis
    by (intro exI [of _ ?s'] conjI) (fact fin, fact ax, fact lo, fact hi, fact whole)
qed

text \<open>\<open>L = E = 2^32\<close>: the target and \<^verbatim>\<open>AX\<close> hold 0 and \<^verbatim>\<open>DX\<close> holds 1.\<close>

lemma slice_size_full_product_example:
  "BX \<noteq> AX \<and> BX \<noteq> DX \<and> Const 0x100000000 \<noteq> InReg AX
   \<and> len_field (frame_with 0xC000100000 0x100000000 0x100000000 7 3 9) 8 = 0x100000000
   \<and> (\<exists>s'. final_state (slice_size ''size'' 8 (Const 0x100000000) BX)
              (frame_with 0xC000100000 0x100000000 0x100000000 7 3 9) = Some s'
           \<and> regs s' AX = regs s' BX
           \<and> unat (regs s' BX) = 0
           \<and> unat (regs s' DX) = 1)"
proof -
  have l32: "len_field (frame_with 0xC000100000 0x100000000 0x100000000 7 3 9) 8 = 0x100000000"
    by (simp add: len_field_def frame_eval)
  show ?thesis
    using slice_size_full_product [of BX "Const 0x100000000" "''size''" 8
        "frame_with 0xC000100000 0x100000000 0x100000000 7 3 9"]
    by (auto simp add: l32)
qed

text \<open>
  Claim C10. For every destination register other than \<^verbatim>\<open>AX\<close> and \<^verbatim>\<open>DX\<close>, after
  \<^verbatim>\<open>slice_size\<close> the register \<^verbatim>\<open>AX\<close> holds the same low 64 bits of \<open>L * E\<close> as the
  destination and \<^verbatim>\<open>DX\<close> the high 64 bits. The code breaks this, and the header's
  description, for an element size passed in \<^verbatim>\<open>AX\<close>: the length is loaded over it
  before it is read. At \<^verbatim>\<open>slice_size(size, 8, AX, BX)\<close> with length 5 and 4 in \<^verbatim>\<open>AX\<close>,
  \<^verbatim>\<open>BX\<close> and \<^verbatim>\<open>AX\<close> end with \<open>L * L = 25\<close>, not 20.
\<close>

theorem element_size_in_AX_is_lost:
  "len_field (frame_with 0xC000100000 5 16 4 3 9) 8 = 5
   \<and> entry_size (frame_with 0xC000100000 5 16 4 3 9) (InReg AX) = 4
   \<and> result_reg (slice_size ''size'' 8 (InReg AX) BX) (frame_with 0xC000100000 5 16 4 3 9) BX
       = Some 25
   \<and> result_reg (slice_size ''size'' 8 (InReg AX) BX) (frame_with 0xC000100000 5 16 4 3 9) AX
       = Some 25
   \<and> (25 :: quad) \<noteq> 5 * 4"
proof -
  have l5: "len_field (frame_with 0xC000100000 5 16 4 3 9) 8 = 5"
    by (simp add: len_field_def frame_eval)
  have a4: "regs (frame_with 0xC000100000 5 16 4 3 9) AX = 4"
    by (simp add: frame_with_def)
  show ?thesis
    by (simp add: l5 a4 result_reg_slice_size regs_size_result_target regs_size_result_AX)
qed

section \<open>The two loads\<close>

text \<open>
  Claim C3. For every frame whose address field at \<^verbatim>\<open>name+offset(FP)\<close> is \<open>A\<close>, the
  expansion of \<^verbatim>\<open>slice_addr\<close> performs exactly one 8-byte load, from that address, and
  leaves \<open>A\<close> in the destination register; no other register, no flag and no byte of
  memory changes.
\<close>

theorem slice_addr_loads_address:
  assumes "addr_field s k = A"
  shows "run (slice_addr n k r) s
           = Inr ([Load64 (arg_address s k)], s\<lparr>regs := (regs s)(r := A)\<rparr>)"
  using assms by (simp add: run_slice_addr addr_field_def)

text \<open>The header's own example, \<^verbatim>\<open>slice_addr(addr, 8, BX)\<close>.\<close>

theorem slice_addr_loads_address_example:
  "addr_field (frame_with 0xC000100000 5 16 7 3 9) 8 = 0xC000100000
   \<and> arg_address (frame_with 0xC000100000 5 16 7 3 9) 8 = 0x1008
   \<and> run (slice_addr ''addr'' 8 BX) (frame_with 0xC000100000 5 16 7 3 9)
       = Inr ([Load64 (arg_address (frame_with 0xC000100000 5 16 7 3 9) 8)],
              (frame_with 0xC000100000 5 16 7 3 9)
                \<lparr>regs := (regs (frame_with 0xC000100000 5 16 7 3 9))(BX := 0xC000100000)\<rparr>)"
proof -
  have a: "addr_field (frame_with 0xC000100000 5 16 7 3 9) 8 = 0xC000100000"
    by (simp add: addr_field_def frame_eval)
  have b: "arg_address (frame_with 0xC000100000 5 16 7 3 9) 8 = 0x1008"
    by (simp add: frame_eval)
  from a b slice_addr_loads_address [OF a] show ?thesis
    by blast
qed

text \<open>
  Claim C4. For every frame whose length field is \<open>L\<close>, the expansion of \<^verbatim>\<open>slice_len\<close>
  performs exactly one 8-byte load, from \<^verbatim>\<open>name+(8+offset)(FP)\<close>, the quadword right
  after the address field, and leaves \<open>L\<close> in the destination register; nothing else
  changes.
\<close>

theorem slice_len_loads_length:
  assumes "len_field s k = L"
  shows "run (slice_len n k r) s
           = Inr ([Load64 (arg_address s k + 8)], s\<lparr>regs := (regs s)(r := L)\<rparr>)
       \<and> arg_address s k + 8 = arg_address s (8 + k)"
  using assms by (simp add: run_slice_len len_field_def arg_address_8)

text \<open>The header's own example, \<^verbatim>\<open>slice_len(length, 8, BX)\<close>.\<close>

theorem slice_len_loads_length_example:
  "len_field (frame_with 0xC000100000 5 16 7 3 9) 8 = 5
   \<and> arg_address (frame_with 0xC000100000 5 16 7 3 9) 8 + 8 = 0x1010
   \<and> run (slice_len ''length'' 8 BX) (frame_with 0xC000100000 5 16 7 3 9)
       = Inr ([Load64 (arg_address (frame_with 0xC000100000 5 16 7 3 9) 8 + 8)],
              (frame_with 0xC000100000 5 16 7 3 9)
                \<lparr>regs := (regs (frame_with 0xC000100000 5 16 7 3 9))(BX := 5)\<rparr>)"
proof -
  have a: "len_field (frame_with 0xC000100000 5 16 7 3 9) 8 = 5"
    by (simp add: len_field_def frame_eval)
  have b: "arg_address (frame_with 0xC000100000 5 16 7 3 9) 8 + 8 = 0x1010"
    by (simp add: frame_eval)
  from a b slice_len_loads_length [OF a] show ?thesis
    by blast
qed

text \<open>
  Claim C6. For every offset, taking \<open>offset + 8\<close> for \<open>offset\<close> in \<^verbatim>\<open>slice_addr\<close> or
  \<^verbatim>\<open>slice_len\<close> moves the address the load reads from by exactly 8 bytes (addresses are
  64-bit, so the sum is taken modulo \<open>2^64\<close>) and changes nothing else: the new expansion
  is the old one with the displacement of its argument-area operand raised by 8.
\<close>

theorem offset_plus_8:
  "slice_addr n (k + 8) r = map (shift_instr 8) (slice_addr n k r)
   \<and> slice_len n (k + 8) r = map (shift_instr 8) (slice_len n k r)
   \<and> events_of (slice_addr n k r) s = Some [Load64 (arg_address s k)]
   \<and> events_of (slice_addr n (k + 8) r) s = Some [Load64 (arg_address s k + 8)]
   \<and> events_of (slice_len n k r) s = Some [Load64 (arg_address s k + 8)]
   \<and> events_of (slice_len n (k + 8) r) s = Some [Load64 (arg_address s k + 8 + 8)]"
  by (simp add: slice_addr_def slice_len_def events_of_def arg_address_def add.commute)

text \<open>
  Claim C7. The expansion of \<^verbatim>\<open>slice_addr\<close> does not depend on what was expanded before
  it: after any sequence of invocations of the three macros (a \<^verbatim>\<open>slice_len\<close> for the same
  name and offset among them), the program text is the earlier expansions followed by
  the same instructions, the load reads the same address, and the destination register
  receives the same value, the address field of the frame the routine started with.
\<close>

theorem slice_addr_order_independent:
  "concat (map expand (pre @ [Slice_addr n k r])) = concat (map expand pre) @ slice_addr n k r
   \<and> (\<exists>evs s1. run (concat (map expand pre)) s = Inr (evs, s1)
         \<and> events_of (slice_addr n k r) s1 = events_of (slice_addr n k r) s
         \<and> result_reg (slice_addr n k r) s1 r = result_reg (slice_addr n k r) s r)
   \<and> result_reg (slice_addr n k r) s r = Some (addr_field s k)
   \<and> result_reg (concat (map expand (pre @ [Slice_addr n k r]))) s r = Some (addr_field s k)"
proof -
  obtain evs s1 where pre: "run (concat (map expand pre)) s = Inr (evs, s1)"
      "mem s1 = mem s" "fp s1 = fp s"
    using run_invocations [of pre s] by blast
  have same: "addr_field s1 k = addr_field s k"
    using pre(2,3) by (rule same_frame_same_field)
  have ev: "events_of (slice_addr n k r) s1 = events_of (slice_addr n k r) s"
    by (simp add: events_of_slice_addr arg_address_def pre(3))
  have rr: "result_reg (slice_addr n k r) s1 r = result_reg (slice_addr n k r) s r"
    by (simp add: result_reg_slice_addr same)
  have whole: "result_reg (concat (map expand (pre @ [Slice_addr n k r]))) s r
                 = Some (addr_field s k)"
    using same by (simp add: result_reg_def run_append pre(1) run_slice_addr addr_field_def)
  show ?thesis
    using pre(1) ev rr whole by (simp add: result_reg_slice_addr)
qed

section \<open>What the macros leave alone\<close>




text \<open>
  Claim C8. No expansion of the three macros reads a byte of the capacity field, the
  third quadword of the triple, 16 bytes after its start, and none writes memory: each
  one runs to its end, reads only bytes of the address or the length quadword, and
  leaves the memory as it was.
\<close>

theorem no_capacity_access:
  "\<exists>evs s'. run (expand c) s = Inr (evs, s')
     \<and> mem s' = mem s
     \<and> writes evs = {}
     \<and> reads evs \<inter> cap_bytes s (offset_of c) = {}
     \<and> reads evs \<subseteq> set (quad_bytes (arg_address s (offset_of c)))
                      \<union> set (quad_bytes (arg_address s (offset_of c) + 8))"
proof (cases c)
  case (Slice_addr n k r)
  then show ?thesis
    by (simp add: run_slice_addr reads_def writes_def cap_bytes_def quad_apart_16)
next
  case (Slice_len n k r)
  then show ?thesis
    by (simp add: run_slice_len reads_def writes_def cap_bytes_def arg_address_8 quad_apart_8)
next
  case (Slice_size n k e r)
  then show ?thesis
    by (simp add: run_slice_size reads_def writes_def cap_bytes_def arg_address_8 quad_apart_8
        size_result_frame)
qed

section \<open>Straight-line code, and the one way a run can end early\<close>

text \<open>
  Claim C9, as amended. No macro checks anything at run time or branches: every
  expansion is a fixed sequence of one or four instructions, none of them a jump, and its
  first instruction loads one quadword from the argument area. When all eight bytes of
  that quadword are mapped, the run goes through every instruction in order and reaches
  its end, whatever the memory holds there: the two loads deliver what lies at the
  address, be it a slice triple or not, and nothing detects or reports it. The only
  run-time error is the processor's: when a byte of the quadword is not mapped, the load
  traps with that address and the run ends there.
\<close>

theorem expansions_straight_line:
  "list_all (\<lambda>i. \<not> is_branch i) (expand c)
   \<and> length (expand c) = (case c of Slice_size n k e r \<Rightarrow> 4 | _ \<Rightarrow> 1)
   \<and> (\<exists>s'. run (expand c) s = Inr ([Load64 (load_site s c)], s')
          \<and> (case c of Slice_size n k e r \<Rightarrow> True
              | _ \<Rightarrow> regs s' (target_of c) = load64 (mem s) (load_site s c)))
   \<and> (all_mapped M (load_site s c) \<longrightarrow>
         run_from M (length (expand c) + j) (expand c) 0 s
           = Some (as_outcome (run (expand c) s)))
   \<and> (\<not> all_mapped M (load_site s c) \<longrightarrow>
         (\<exists>a. a \<in> set (quad_bytes (load_site s c)) \<and> \<not> M a
             \<and> run_from M (length (expand c) + j) (expand c) 0 s = Some (Trap a)))"
  using branch_free [of c] expand_length [of c] run_expand_loads [of c s]
    run_from_expand_mapped [of M s c j] run_from_expand_unmapped [of M s c j]
  by blast

text \<open>
  On the example frame with only its own page mapped: \<^verbatim>\<open>slice_len(length, 8, BX)\<close> runs
  to its end, and \<^verbatim>\<open>slice_len(length, 0x7ffffff0, BX)\<close> traps.
\<close>

theorem expansions_straight_line_example:
  "all_mapped frame_page (load_site (frame_with 0xC000100000 5 16 7 3 9) (Slice_len ''length'' 8 BX))
   \<and> run_from frame_page (length (expand (Slice_len ''length'' 8 BX)) + 0)
        (expand (Slice_len ''length'' 8 BX)) 0 (frame_with 0xC000100000 5 16 7 3 9)
       = Some (as_outcome (run (expand (Slice_len ''length'' 8 BX))
                 (frame_with 0xC000100000 5 16 7 3 9)))
   \<and> \<not> all_mapped frame_page
         (load_site (frame_with 0xC000100000 5 16 7 3 9) (Slice_len ''length'' 0x7ffffff0 BX))
   \<and> (\<exists>a. \<not> frame_page a
         \<and> run_from frame_page (length (expand (Slice_len ''length'' 0x7ffffff0 BX)) + 0)
              (expand (Slice_len ''length'' 0x7ffffff0 BX)) 0 (frame_with 0xC000100000 5 16 7 3 9)
             = Some (Trap a))"
proof -
  let ?F = "frame_with 0xC000100000 5 16 7 3 9"
  have m: "all_mapped frame_page (load_site ?F (Slice_len ''length'' 8 BX))"
    by (simp add: all_mapped_def frame_page_def quad_bytes_def arg_address_def frame_with_def)
  have u: "\<not> all_mapped frame_page (load_site ?F (Slice_len ''length'' 0x7ffffff0 BX))"
    by (simp add: all_mapped_def frame_page_def quad_bytes_def arg_address_def frame_with_def)
  from m u expansions_straight_line [of "Slice_len ''length'' 8 BX" ?F frame_page 0]
    expansions_straight_line [of "Slice_len ''length'' 0x7ffffff0 BX" ?F frame_page 0]
  show ?thesis by blast
qed

text \<open>
  As the claim is written, with no error and no diagnostic in any case, it fails:
  \<^verbatim>\<open>slice_addr(addr, 0x7ffffff0, BX)\<close> on the example frame reads from \<open>0x80000ff0\<close>,
  which is not mapped, and the run ends in a trap at that address.
\<close>

theorem unmapped_load_traps:
  "run_from frame_page 1 (slice_addr ''addr'' 0x7ffffff0 BX) 0 (frame_with 0xC000100000 5 16 7 3 9)
     = Some (Trap 0x80000ff0)"
  by (simp add: slice_addr_def exec_in_arg_load quad_bytes_def arg_address_def frame_with_def
      frame_page_def)

end
